theory Spec2Isabelle
  imports Complex_Main
begin

section \<open>Headings and structural comparison\<close>

text \<open>
  The interface \<open>TocItem\<close> of the plugin: one heading of the document as the host's
  metadata cache reports it. The fields \<open>text\<close> and \<open>id\<close> are called \<open>htext\<close> and
  \<open>hid\<close> here. Levels and lines are integers.
\<close>

record TocItem =
  level :: int
  htext :: string
  line :: int
  hid :: string

text \<open>
  \<open>areHeadersStructurallyEqual\<close>: the lengths are compared first, then the loop over
  the indices returns false at the first pair that differs in level or in text.
\<close>

fun headersLoop :: "TocItem list \<Rightarrow> TocItem list \<Rightarrow> bool" where
  "headersLoop (h1 # oldHeaders) (h2 # newHeaders) =
     (if level h1 \<noteq> level h2 \<or> htext h1 \<noteq> htext h2 then False
      else headersLoop oldHeaders newHeaders)"
| "headersLoop _ _ = True"

definition areHeadersStructurallyEqual :: "TocItem list \<Rightarrow> TocItem list \<Rightarrow> bool" where
  "areHeadersStructurallyEqual oldHeaders newHeaders =
     (if length oldHeaders \<noteq> length newHeaders then False
      else headersLoop oldHeaders newHeaders)"

section \<open>Markup stripping\<close>

text \<open>
  \<open>String.prototype.replace\<close> with a global regular expression scans the subject from
  left to right. A matcher stands for one regular expression: applied to the subject from
  the current position on, it returns the replacement text and the subject after the
  match, or \<open>None\<close> when the expression does not match at this position. After a match
  the scan goes on behind it; otherwise the character is copied and the scan moves one
  position on. (After an empty match the engine copies one character and moves on; none
  of the five expressions below matches the empty string.)
\<close>

type_synonym matcher = "string \<Rightarrow> (string \<times> string) option"

function replaceAll :: "matcher \<Rightarrow> string \<Rightarrow> string" where
  "replaceAll m [] = []"
| "replaceAll m (c # cs) =
     (case m (c # cs) of
        None \<Rightarrow> c # replaceAll m cs
      | Some r \<Rightarrow>
          if length (snd r) < length (c # cs) then fst r @ replaceAll m (snd r)
          else fst r @ c # replaceAll m cs)"
  by pat_completeness auto
termination
  by (relation "measure (\<lambda>(m, s). length s)") auto

text \<open>
  The characters that \<open>.\<close> does not match: line feed and carriage return. (The
  expressions have no \<open>s\<close> flag. The separators U+2028 and U+2029, which \<open>.\<close> excludes
  as well, are no single character of this string type; a heading is one line of the
  document and contains no line terminator.)
\<close>

definition lineTerminator :: "char \<Rightarrow> bool" where
  "lineTerminator c = (c = CHR 0x0A \<or> c = CHR 0x0D)"

text \<open>
  \<open>(.*?)\<close> followed by the back reference \<open>\1\<close>: the shortest run of characters other
  than line terminators after which the delimiter \<open>d\<close> follows. Returns the run and the
  subject after the closing delimiter.
\<close>

fun lazyUntil :: "string \<Rightarrow> string \<Rightarrow> (string \<times> string) option" where
  "lazyUntil d [] = None"
| "lazyUntil d (c # cs) =
     (if take (length d) (c # cs) = d then Some ([], drop (length d) (c # cs))
      else if lineTerminator c then None
      else (case lazyUntil d cs of
              None \<Rightarrow> None
            | Some r \<Rightarrow> Some (c # fst r, snd r)))"

text \<open>
  A greedy negated class \<open>[^x]+\<close> or \<open>[^x]*\<close> followed by the literal \<open>x\<close> can only
  match the whole run of characters other than \<open>x\<close>: a shorter run is followed by a
  character of the run, never by \<open>x\<close>.
\<close>

definition runOther :: "char \<Rightarrow> string \<Rightarrow> string" where
  "runOther x s = takeWhile (\<lambda>c. c \<noteq> x) s"

definition afterRun :: "char \<Rightarrow> string \<Rightarrow> string" where
  "afterRun x s = dropWhile (\<lambda>c. c \<noteq> x) s"

text \<open>The tail \<open>\]\([^)]+\)\<close> shared by the link and the image expression.\<close>

definition targetAt :: "string \<Rightarrow> string option" where
  "targetAt s =
     (case s of
        c1 # c2 # r \<Rightarrow>
          if c1 = CHR '']'' \<and> c2 = CHR ''('' \<and> runOther (CHR '')'') r \<noteq> [] then
            (case afterRun (CHR '')'') r of
               [] \<Rightarrow> None
             | _ # rest \<Rightarrow> Some rest)
          else None
      | _ \<Rightarrow> None)"

text \<open>\<open>/\[([^\]]+)\]\([^)]+\)/g\<close> with replacement \<open>$1\<close>.\<close>

definition linkAt :: matcher where
  "linkAt s =
     (case s of
        [] \<Rightarrow> None
      | c # r \<Rightarrow>
          if c = CHR ''['' \<and> runOther (CHR '']'') r \<noteq> [] then
            (case targetAt (afterRun (CHR '']'') r) of
               None \<Rightarrow> None
             | Some rest \<Rightarrow> Some (runOther (CHR '']'') r, rest))
          else None)"

text \<open>\<open>/(\*\*|__)(.*?)\1/g\<close> with replacement \<open>$2\<close>.\<close>

definition boldAt :: matcher where
  "boldAt s =
     (case s of
        c1 # c2 # r \<Rightarrow>
          if (c1 = CHR ''*'' \<and> c2 = CHR ''*'') \<or> (c1 = CHR ''_'' \<and> c2 = CHR ''_'')
          then lazyUntil [c1, c2] r
          else None
      | _ \<Rightarrow> None)"

text \<open>\<open>/(\*|_)(.*?)\1/g\<close> with replacement \<open>$2\<close>.\<close>

definition italicAt :: matcher where
  "italicAt s =
     (case s of
        [] \<Rightarrow> None
      | c # r \<Rightarrow>
          if c = CHR ''*'' \<or> c = CHR ''_'' then lazyUntil [c] r else None)"

text \<open>The expression for code spans, a backquote (character 0x60) around \<open>([^`]+)\<close>,
  with replacement \<open>$1\<close>.\<close>

definition codeAt :: matcher where
  "codeAt s =
     (case s of
        [] \<Rightarrow> None
      | c # r \<Rightarrow>
          if c = CHR 0x60 \<and> runOther (CHR 0x60) r \<noteq> [] then
            (case afterRun (CHR 0x60) r of
               [] \<Rightarrow> None
             | _ # rest \<Rightarrow> Some (runOther (CHR 0x60) r, rest))
          else None)"

text \<open>\<open>/!\[([^\]]*)\]\([^)]+\)/g\<close> with replacement \<open>$1\<close>.\<close>

definition imageAt :: matcher where
  "imageAt s =
     (case s of
        c1 # c2 # r \<Rightarrow>
          if c1 = CHR ''!'' \<and> c2 = CHR ''['' then
            (case targetAt (afterRun (CHR '']'') r) of
               None \<Rightarrow> None
             | Some rest \<Rightarrow> Some (runOther (CHR '']'') r, rest))
          else None
      | _ \<Rightarrow> None)"

text \<open>
  \<open>stripMarkdown\<close>, in the order of the source: links, bold, italic, code spans, and
  images last.
\<close>

definition stripMarkdown :: "string \<Rightarrow> string" where
  "stripMarkdown text0 =
     (let clean = replaceAll linkAt text0;
          clean = replaceAll boldAt clean;
          clean = replaceAll italicAt clean;
          clean = replaceAll codeAt clean;
          clean = replaceAll imageAt clean
      in clean)"

section \<open>The panel and the plugin state\<close>

text \<open>
  One \<open>div.sspai-toc-item\<close> of the panel. \<open>dataLine\<close> and \<open>dataLevel\<close> are the
  entries \<open>dataset.line\<close> and \<open>dataset.level\<close>: \<open>renderToc\<close> writes them with
  \<open>toString\<close> from an integer and every reader applies \<open>parseInt\<close>, so they are kept as
  integers, \<open>None\<close> when the entry is not set. \<open>spanText\<close> is the \<open>innerText\<close> of the
  child \<open>span.sspai-toc-text\<close>, \<open>None\<close> when there is no such child. \<open>active\<close> and
  \<open>parentVisible\<close> are the CSS classes \<open>active\<close> and \<open>parent-visible\<close>.
\<close>

record TocElement =
  levelClass :: int
  spanText :: "string option"
  dataLine :: "int option"
  dataLevel :: "int option"
  active :: bool
  parentVisible :: bool

text \<open>
  The fields of the plugin object that the operations below read or write.
  \<open>containerEl\<close> is \<open>None\<close> for \<open>null\<close>, otherwise the list of the item elements of the
  container in document order (what \<open>querySelectorAll('.sspai-toc-item')\<close> returns).
\<close>

record Plugin =
  containerEl :: "TocElement list option"
  lastActiveIndex :: int
  lastHeadings :: "TocItem list"
  blockScrollEvent :: bool

text \<open>The plugin object as its field initialisers leave it.\<close>

definition initialPlugin :: Plugin where
  "initialPlugin =
     \<lparr>containerEl = None, lastActiveIndex = - 1, lastHeadings = [],
      blockScrollEvent = False\<rparr>"

section \<open>The view\<close>

text \<open>
  What the operations read from the host through the view. Pixel quantities are real
  numbers (the source computes with floating point numbers; rounding is not modelled).
\<close>

datatype Mode = Source | Preview

text \<open>The scroll element returned by \<open>getScroller\<close>, with its bounding rectangle.\<close>

record Scroller =
  scrollTop :: real
  clientHeight :: real
  rectTop :: real
  rectLeft :: real

text \<open>
  The CodeMirror instance \<open>editor.cm\<close>. \<open>lineAtCoords c x y\<close> is
  \<open>cm.state.doc.lineAt(cm.posAtCoords({x, y})).number\<close> and \<open>lineAtHeight c h\<close> is
  \<open>cm.state.doc.lineAt(cm.lineBlockAtHeight(h).from).number\<close>; both are \<open>None\<close> when
  the position or block is null or a call throws (the source catches and ignores it).
\<close>

record CodeMirror =
  lineAtCoords :: "real \<Rightarrow> real \<Rightarrow> int option"
  lineAtHeight :: "real \<Rightarrow> int option"

text \<open>
  \<open>view.editor\<close>: \<open>scrollInfoTop\<close> and \<open>scrollInfoHeight\<close> are the fields \<open>top\<close> and
  \<open>height\<close> of \<open>getScrollInfo()\<close>, \<open>cursorLine\<close> is \<open>getCursor().line\<close>.
\<close>

record Editor =
  scrollInfoTop :: real
  scrollInfoHeight :: "real option"
  cm :: "CodeMirror option"
  cursorLine :: "int option"

text \<open>
  A heading element \<open>h1\<close> .. \<open>h6\<close> of the rendered document: the number in its tag
  name, its \<open>innerText\<close>, its attribute \<open>data-heading\<close>, the field \<open>top\<close> of its
  bounding rectangle (\<open>headerTop\<close>), whether it lies inside a \<open>.markdown-embed\<close> and
  whether it carries the class \<open>inline-title\<close>.
\<close>

record DomHeader =
  tagLevel :: int
  innerText :: string
  dataHeading :: "string option"
  headerTop :: real
  inEmbed :: bool
  inlineTitle :: bool

text \<open>
  \<open>hasFile\<close> tells whether \<open>view.file\<close> is set. \<open>fileHeadings\<close> is the heading
  list of the metadata cache for that file, already as \<open>TocItem\<close>s (with the id that
  \<open>getTocHeaders\<close> computes from the text); \<open>None\<close> when the file has no cache or the
  cache has no headings. \<open>domHeaders\<close> is \<open>querySelectorAll('h1, ..., h6')\<close> on
  the content element, in document order.
\<close>

record View =
  hasFile :: bool
  fileHeadings :: "TocItem list option"
  mode :: Mode
  scroller :: "Scroller option"
  editor :: "Editor option"
  domHeaders :: "DomHeader list"

definition getTocHeaders :: "View \<Rightarrow> TocItem list" where
  "getTocHeaders view =
     (if \<not> hasFile view then []
      else case fileHeadings view of None \<Rightarrow> [] | Some hs \<Rightarrow> hs)"

section \<open>Marking the active entry and its parents\<close>

text \<open>\<open>parseInt(dataset.level || "1")\<close>, as \<open>updateActiveItem\<close> reads the level.\<close>

definition levelOr1 :: "TocElement \<Rightarrow> int" where
  "levelOr1 item = (case dataLevel item of None \<Rightarrow> 1 | Some l \<Rightarrow> l)"

definition clearItem :: "TocElement \<Rightarrow> TocElement" where
  "clearItem item = item\<lparr>active := False, parentVisible := False\<rparr>"

text \<open>
  The loop \<open>for (let i = activeIndex - 1; i >= 0; i--)\<close>. The counter of the model is
  \<open>i + 1\<close>: at \<open>Suc i\<close> the body runs for index \<open>i\<close>, at \<open>0\<close> the loop is over.
  \<open>found\<close> is the set \<open>parentLevelsFound\<close>.
\<close>

fun parentLoop :: "int \<Rightarrow> int set \<Rightarrow> nat \<Rightarrow> TocElement list \<Rightarrow> TocElement list" where
  "parentLoop activeLevel found 0 items = items"
| "parentLoop activeLevel found (Suc i) items =
     (let itemLevel = levelOr1 (items ! i) in
      if itemLevel < activeLevel \<and> itemLevel \<notin> found then
        (let items' = items[i := (items ! i)\<lparr>parentVisible := True\<rparr>] in
         if itemLevel = 1 then items'
         else parentLoop activeLevel (insert itemLevel found) i items')
      else parentLoop activeLevel found i items)"

text \<open>
  \<open>updateActiveItem\<close>: both classes are removed from every item; for an index inside the
  list the item is marked active and the loop marks its parents. (The final
  \<open>scrollIntoView\<close> of the active item moves the panel only and is left out.)
\<close>

definition updateActiveItem :: "TocElement list \<Rightarrow> int \<Rightarrow> TocElement list" where
  "updateActiveItem items activeIndex =
     (let cleared = map clearItem items in
      if activeIndex \<ge> 0 \<and> activeIndex < int (length cleared) then
        (let a = nat activeIndex;
             marked = cleared[a := (cleared ! a)\<lparr>active := True\<rparr>];
             activeLevel = levelOr1 (marked ! a)
         in parentLoop activeLevel {} a marked)
      else cleared)"

section \<open>Building and patching the panel\<close>

text \<open>The element that \<open>renderToc\<close> creates for one header.\<close>

definition createItem :: "TocItem \<Rightarrow> TocElement" where
  "createItem header =
     \<lparr>levelClass = level header,
      spanText = Some (stripMarkdown (htext header)),
      dataLine = Some (line header),
      dataLevel = Some (level header),
      active = False,
      parentVisible = False\<rparr>"

text \<open>
  \<open>renderToc(view, headers?)\<close>: nothing without a container; otherwise the container is
  emptied, \<open>lastHeadings\<close> is replaced and one element per header is created.
\<close>

definition renderToc :: "Plugin \<Rightarrow> View \<Rightarrow> TocItem list option \<Rightarrow> Plugin" where
  "renderToc st view headers =
     (case containerEl st of
        None \<Rightarrow> st
      | Some _ \<Rightarrow>
          (let hs = (case headers of None \<Rightarrow> getTocHeaders view | Some h \<Rightarrow> h)
           in st\<lparr>containerEl := Some (map createItem hs), lastHeadings := hs\<rparr>))"

text \<open>
  The click handler that \<open>renderToc\<close> attaches to the item at \<open>index\<close>. The second
  component is the navigation requested from the host: the line read from
  \<open>dataset.line\<close> of the clicked item (the item at \<open>index\<close> of the container) and the
  mode of the view.
\<close>

definition onClickEvent :: "Plugin \<Rightarrow> View \<Rightarrow> nat \<Rightarrow> Plugin \<times> (int \<times> Mode) option" where
  "onClickEvent st view index =
     (if \<not> hasFile view then (st, None)
      else
        (let st1 = st\<lparr>lastActiveIndex := int index, blockScrollEvent := True\<rparr>;
             ln = (case containerEl st of
                     None \<Rightarrow> 0
                   | Some items \<Rightarrow>
                       if index < length items
                       then (case dataLine (items ! index) of None \<Rightarrow> 0 | Some l \<Rightarrow> l)
                       else 0);
             st2 = (case containerEl st1 of
                      None \<Rightarrow> st1
                    | Some items \<Rightarrow>
                        st1\<lparr>containerEl := Some (updateActiveItem items (int index))\<rparr>)
         in (st2, Some (ln, mode view))))"

text \<open>\<open>updateTocPositions\<close>: only \<open>dataset.line\<close> of each element is rewritten.\<close>

definition updateTocPositions :: "Plugin \<Rightarrow> TocItem list \<Rightarrow> Plugin" where
  "updateTocPositions st headers =
     (case containerEl st of
        None \<Rightarrow> st
      | Some items \<Rightarrow>
          if length items \<noteq> length headers then st
          else st\<lparr>containerEl :=
                 Some (map (\<lambda>(item, h). item\<lparr>dataLine := Some (line h)\<rparr>) (zip items headers))\<rparr>)"

section \<open>Resolving the active entry\<close>

subsection \<open>Source mode: the current line\<close>

text \<open>
  The first part of \<open>highlightActiveHeader\<close> in source mode. \<open>currentLine\<close> starts
  as \<open>specificLine ?? -1\<close>; with an editor and no line given, the line at the top of the
  scroll element is looked up (at \<open>h / 3000\<close> below its top), and \<open>currentLine\<close> keeps
  its value when the lookup gives nothing.
\<close>

definition sourceCurrentLine :: "View \<Rightarrow> int option \<Rightarrow> int" where
  "sourceCurrentLine view specificLine =
     (let currentLine = (case specificLine of None \<Rightarrow> - 1 | Some l \<Rightarrow> l) in
      case editor view of
        None \<Rightarrow> currentLine
      | Some ed \<Rightarrow>
          if currentLine \<noteq> - 1 then currentLine
          else
            (let h = (case scroller view of
                        Some sc \<Rightarrow> clientHeight sc
                      | None \<Rightarrow>
                          (case scrollInfoHeight ed of
                             None \<Rightarrow> 800
                           | Some eh \<Rightarrow> if eh \<noteq> 0 then eh else 800));
                 userOffset = h / 3000;
                 targetHeight = scrollInfoTop ed + userOffset
             in case cm ed of
                  None \<Rightarrow> currentLine
                | Some c \<Rightarrow>
                    (case scroller view of
                       Some sc \<Rightarrow>
                         (case lineAtCoords c (rectLeft sc + 20) (rectTop sc + userOffset) of
                            None \<Rightarrow> currentLine
                          | Some n \<Rightarrow> n)
                     | None \<Rightarrow>
                         (case lineAtHeight c targetHeight of
                            None \<Rightarrow> currentLine
                          | Some n \<Rightarrow> n))))"

subsection \<open>Source mode: the scan over the items\<close>

text \<open>\<open>parseInt(dataset.line || "0")\<close>.\<close>

definition itemLine :: "TocElement \<Rightarrow> int" where
  "itemLine item = (case dataLine item of None \<Rightarrow> 0 | Some l \<Rightarrow> l)"

text \<open>
  The loop over the items from index \<open>i\<close> on, with the running value of
  \<open>activeIndex\<close>; \<open>specific\<close> is \<open>specificLine !== undefined\<close>. The loop stops at the
  first item whose line is greater than \<open>currentLine\<close>.
\<close>

fun sourceScan :: "bool \<Rightarrow> int \<Rightarrow> TocElement list \<Rightarrow> nat \<Rightarrow> int \<Rightarrow> int" where
  "sourceScan specific currentLine [] i activeIndex = activeIndex"
| "sourceScan specific currentLine (item # rest) i activeIndex =
     (if itemLine item \<le> currentLine
      then sourceScan specific currentLine rest (Suc i)
             (if specific then int i else int i + 1)
      else activeIndex)"

text \<open>The scan followed by the guard against an index behind the last item.\<close>

definition sourceActiveIndex :: "bool \<Rightarrow> int \<Rightarrow> TocElement list \<Rightarrow> int" where
  "sourceActiveIndex specific currentLine items =
     (let activeIndex = sourceScan specific currentLine items 0 (- 1) in
      if activeIndex \<ge> int (length items) then int (length items) - 1 else activeIndex)"

definition highlightSource :: "Plugin \<Rightarrow> View \<Rightarrow> TocElement list \<Rightarrow> int option \<Rightarrow> Plugin" where
  "highlightSource st view items specificLine =
     (let currentLine = sourceCurrentLine view specificLine;
          activeIndex = sourceActiveIndex (specificLine \<noteq> None) currentLine items;
          activeIndex = (case editor view of
                           None \<Rightarrow> activeIndex
                         | Some ed \<Rightarrow> if scrollInfoTop ed < 50 then 0 else activeIndex);
          st1 = (if activeIndex \<ge> 0 then st\<lparr>lastActiveIndex := activeIndex\<rparr> else st)
      in st1\<lparr>containerEl := Some (updateActiveItem items activeIndex)\<rparr>)"

subsection \<open>Preview mode: the candidate heading\<close>

text \<open>\<open>targetTop\<close> of the preview branch.\<close>

definition previewTargetTop :: "Scroller \<Rightarrow> real" where
  "previewTargetTop sc =
     (let userOffset = clientHeight sc / 2000 in rectTop sc + userOffset - 20)"

text \<open>
  The loop over the heading elements with the running value of \<open>activeDomHeader\<close>:
  a heading at or above the target selects the heading after it, or itself when it is the
  last; the loop stops at the first heading below the target.
\<close>

fun findActiveDomHeader :: "real \<Rightarrow> DomHeader list \<Rightarrow> DomHeader option \<Rightarrow> DomHeader option" where
  "findActiveDomHeader targetTop [] activeDomHeader = activeDomHeader"
| "findActiveDomHeader targetTop (h # hs) activeDomHeader =
     (if headerTop h \<le> targetTop
      then findActiveDomHeader targetTop hs (Some (case hs of [] \<Rightarrow> h | nxt # _ \<Rightarrow> nxt))
      else activeDomHeader)"

definition visibleDomHeaders :: "View \<Rightarrow> DomHeader list" where
  "visibleDomHeaders view = filter (\<lambda>h. \<not> inEmbed h \<and> \<not> inlineTitle h) (domHeaders view)"

text \<open>\<open>innerText\<close>, or \<open>data-heading\<close> (or the empty string) when it is empty.\<close>

definition headerTextOf :: "DomHeader \<Rightarrow> string" where
  "headerTextOf h =
     (if innerText h \<noteq> [] then innerText h
      else case dataHeading h of None \<Rightarrow> [] | Some t \<Rightarrow> t)"

subsection \<open>Preview mode: matching against the items\<close>

text \<open>\<open>parseInt(dataset.level || "0")\<close> and the text of the item's span.\<close>

definition levelOr0 :: "TocElement \<Rightarrow> int" where
  "levelOr0 item = (case dataLevel item of None \<Rightarrow> 0 | Some l \<Rightarrow> l)"

definition itemText :: "TocElement \<Rightarrow> string" where
  "itemText item = (case spanText item of None \<Rightarrow> [] | Some t \<Rightarrow> t)"

text \<open>The test \<open>itemLevel === level && itemText === headerText\<close>.\<close>

definition itemMatches :: "TocElement \<Rightarrow> int \<Rightarrow> string \<Rightarrow> bool" where
  "itemMatches item lvl headerText \<longleftrightarrow> levelOr0 item = lvl \<and> itemText item = headerText"

definition matchingIndices :: "TocElement list \<Rightarrow> int \<Rightarrow> string \<Rightarrow> nat list" where
  "matchingIndices items lvl headerText =
     filter (\<lambda>i. itemMatches (items ! i) lvl headerText) [0..<length items]"

text \<open>
  The loop \<open>for (const idx of matchingIndices)\<close> with the running values of
  \<open>minDistance\<close> (\<open>None\<close> for \<open>Infinity\<close>) and \<open>bestMatch\<close>.
\<close>

fun closestLoop :: "int \<Rightarrow> nat list \<Rightarrow> int option \<Rightarrow> nat \<Rightarrow> nat" where
  "closestLoop lastActive [] minDistance bestMatch = bestMatch"
| "closestLoop lastActive (idx # rest) minDistance bestMatch =
     (let distance = \<bar>int idx - lastActive\<bar> in
      if (case minDistance of None \<Rightarrow> True | Some d \<Rightarrow> distance < d)
      then closestLoop lastActive rest (Some distance) idx
      else closestLoop lastActive rest minDistance bestMatch)"

definition matchedIndexOf :: "int \<Rightarrow> nat list \<Rightarrow> int" where
  "matchedIndexOf lastActive matching =
     (if length matching = 1 then int (matching ! 0)
      else if length matching > 1
      then int (closestLoop lastActive matching None (matching ! 0))
      else - 1)"

definition highlightPreview :: "Plugin \<Rightarrow> View \<Rightarrow> TocElement list \<Rightarrow> Plugin" where
  "highlightPreview st view items =
     (case scroller view of
        None \<Rightarrow> st
      | Some sc \<Rightarrow>
          if scrollTop sc < 50 \<and> length items > 0
          then st\<lparr>lastActiveIndex := 0, containerEl := Some (updateActiveItem items 0)\<rparr>
          else
            (case findActiveDomHeader (previewTargetTop sc) (visibleDomHeaders view) None of
               None \<Rightarrow> st
             | Some activeDomHeader \<Rightarrow>
                 (let headerText = headerTextOf activeDomHeader in
                  if headerText = [] then st
                  else
                    (let matchedIndex =
                           matchedIndexOf (lastActiveIndex st)
                             (matchingIndices items (tagLevel activeDomHeader) headerText)
                     in if matchedIndex \<ge> 0
                        then st\<lparr>lastActiveIndex := matchedIndex,
                                containerEl := Some (updateActiveItem items matchedIndex)\<rparr>
                        else st))))"

subsection \<open>The resolver\<close>

definition highlightActiveHeader :: "Plugin \<Rightarrow> View \<Rightarrow> int option \<Rightarrow> Plugin" where
  "highlightActiveHeader st view specificLine =
     (case containerEl st of
        None \<Rightarrow> st
      | Some items \<Rightarrow>
          (case mode view of
             Source \<Rightarrow> highlightSource st view items specificLine
           | Preview \<Rightarrow> highlightPreview st view items))"

section \<open>The update cycle\<close>

text \<open>
  \<open>updateToc\<close> for the active Markdown view (\<open>None\<close> when there is none): the
  container is created when missing, then the new headers are compared with
  \<open>lastHeadings\<close>; equal structure patches the lines and resolves the active entry,
  anything else renders the panel again. (The registration of the DOM events, the
  responsive layout and the mutation observer that follow do not touch the fields
  modelled here.)
\<close>

definition updateToc :: "Plugin \<Rightarrow> View option \<Rightarrow> Plugin" where
  "updateToc st activeView =
     (case activeView of
        None \<Rightarrow> st
      | Some view \<Rightarrow>
          (let st1 = (case containerEl st of
                        None \<Rightarrow> st\<lparr>containerEl := Some []\<rparr>
                      | Some _ \<Rightarrow> st);
               newHeaders = getTocHeaders view
           in if areHeadersStructurallyEqual (lastHeadings st1) newHeaders
              then highlightActiveHeader
                     ((updateTocPositions st1 newHeaders)\<lparr>lastHeadings := newHeaders\<rparr>)
                     view None
              else renderToc st1 view (Some newHeaders)))"

section \<open>Example documents, panels and views\<close>

text \<open>A heading written with emphasis and the same heading without markup.\<close>

definition boldHeading :: TocItem where
  "boldHeading = \<lparr>level = 1, htext = ''**A**'', line = 0, hid = ''**a**''\<rparr>"

definition plainHeading :: TocItem where
  "plainHeading = \<lparr>level = 1, htext = ''A'', line = 0, hid = ''a''\<rparr>"

text \<open>A document with three headings, and the same document after two lines were
  inserted at its top.\<close>

definition introSetupUsage :: "TocItem list" where
  "introSetupUsage =
     [\<lparr>level = 1, htext = ''Intro'', line = 0, hid = ''intro''\<rparr>,
      \<lparr>level = 2, htext = ''Setup'', line = 10, hid = ''setup''\<rparr>,
      \<lparr>level = 2, htext = ''Usage'', line = 30, hid = ''usage''\<rparr>]"

definition introSetupUsageMoved :: "TocItem list" where
  "introSetupUsageMoved =
     [\<lparr>level = 1, htext = ''Intro'', line = 2, hid = ''intro''\<rparr>,
      \<lparr>level = 2, htext = ''Setup'', line = 12, hid = ''setup''\<rparr>,
      \<lparr>level = 2, htext = ''Usage'', line = 32, hid = ''usage''\<rparr>]"

text \<open>The panel of that document before any entry was active.\<close>

definition panelState :: Plugin where
  "panelState =
     \<lparr>containerEl = Some (map createItem introSetupUsage), lastActiveIndex = - 1,
      lastHeadings = introSetupUsage, blockScrollEvent = False\<rparr>"

text \<open>A scroll element 900 pixels high whose top is at the top of the window, scrolled
  down by 1000 pixels.\<close>

definition tallScroller :: Scroller where
  "tallScroller = \<lparr>scrollTop = 1000, clientHeight = 900, rectTop = 0, rectLeft = 0\<rparr>"

text \<open>A reading view of the document with no heading element in the DOM.\<close>

definition previewView :: View where
  "previewView =
     \<lparr>hasFile = True, fileHeadings = Some introSetupUsage, mode = Preview,
      scroller = Some tallScroller, editor = None, domHeaders = []\<rparr>"

text \<open>An editing view scrolled down by 120 pixels with the cursor in line 12.\<close>

definition cursorView :: View where
  "cursorView =
     \<lparr>hasFile = True, fileHeadings = Some introSetupUsage, mode = Source,
      scroller = None,
      editor = Some \<lparr>scrollInfoTop = 120, scrollInfoHeight = None, cm = None,
                       cursorLine = Some 12\<rparr>,
      domHeaders = []\<rparr>"

text \<open>An editing view scrolled down by 600 pixels whose top visible line is line 35.\<close>

definition scrolledView :: View where
  "scrolledView =
     \<lparr>hasFile = True, fileHeadings = Some introSetupUsage, mode = Source,
      scroller = Some \<lparr>scrollTop = 600, clientHeight = 900, rectTop = 0, rectLeft = 0\<rparr>,
      editor = Some \<lparr>scrollInfoTop = 600, scrollInfoHeight = Some 900,
                       cm = Some \<lparr>lineAtCoords = (\<lambda>x y. Some 35),
                                  lineAtHeight = (\<lambda>h. Some 35)\<rparr>,
                       cursorLine = None\<rparr>,
      domHeaders = []\<rparr>"

text \<open>The outline \<open>[(1, A), (2, B), (3, C), (2, D)]\<close> and its panel.\<close>

definition abcdOutline :: "TocItem list" where
  "abcdOutline =
     [\<lparr>level = 1, htext = ''A'', line = 0, hid = ''a''\<rparr>,
      \<lparr>level = 2, htext = ''B'', line = 4, hid = ''b''\<rparr>,
      \<lparr>level = 3, htext = ''C'', line = 8, hid = ''c''\<rparr>,
      \<lparr>level = 2, htext = ''D'', line = 12, hid = ''d''\<rparr>]"

definition abcdPanel :: "TocElement list" where
  "abcdPanel = map createItem abcdOutline"

text \<open>A document with the heading \<open>Notes\<close> of level 3 at the indices 2 and 7, and its
  panel when the entry with index 3 was the last active one.\<close>

definition notesDocument :: "TocItem list" where
  "notesDocument =
     [\<lparr>level = 1, htext = ''Guide'', line = 0, hid = ''guide''\<rparr>,
      \<lparr>level = 2, htext = ''Install'', line = 5, hid = ''install''\<rparr>,
      \<lparr>level = 3, htext = ''Notes'', line = 9, hid = ''notes''\<rparr>,
      \<lparr>level = 2, htext = ''Usage'', line = 14, hid = ''usage''\<rparr>,
      \<lparr>level = 3, htext = ''Options'', line = 20, hid = ''options''\<rparr>,
      \<lparr>level = 3, htext = ''Examples'', line = 27, hid = ''examples''\<rparr>,
      \<lparr>level = 2, htext = ''Advanced'', line = 33, hid = ''advanced''\<rparr>,
      \<lparr>level = 3, htext = ''Notes'', line = 40, hid = ''notes''\<rparr>]"

definition notesState :: Plugin where
  "notesState =
     \<lparr>containerEl = Some (map createItem notesDocument), lastActiveIndex = 3,
      lastHeadings = notesDocument, blockScrollEvent = False\<rparr>"

text \<open>A document with the heading \<open>Notes\<close> of level 3 at the indices 2 and 4, one
  entry before and one after the last active entry 3.\<close>

definition tieDocument :: "TocItem list" where
  "tieDocument =
     [\<lparr>level = 1, htext = ''Guide'', line = 0, hid = ''guide''\<rparr>,
      \<lparr>level = 2, htext = ''Install'', line = 5, hid = ''install''\<rparr>,
      \<lparr>level = 3, htext = ''Notes'', line = 9, hid = ''notes''\<rparr>,
      \<lparr>level = 2, htext = ''Usage'', line = 14, hid = ''usage''\<rparr>,
      \<lparr>level = 3, htext = ''Notes'', line = 20, hid = ''notes''\<rparr>]"

definition tieState :: Plugin where
  "tieState =
     \<lparr>containerEl = Some (map createItem tieDocument), lastActiveIndex = 3,
      lastHeadings = tieDocument, blockScrollEvent = False\<rparr>"

text \<open>Heading elements of the rendered document: one scrolled out above the viewport,
  and two 120 pixels below its top.\<close>

definition passedHeading :: DomHeader where
  "passedHeading =
     \<lparr>tagLevel = 2, innerText = ''Install'', dataHeading = Some ''Install'', headerTop = - 300,
      inEmbed = False, inlineTitle = False\<rparr>"

definition notesHeading :: DomHeader where
  "notesHeading =
     \<lparr>tagLevel = 3, innerText = ''Notes'', dataHeading = Some ''Notes'', headerTop = 120,
      inEmbed = False, inlineTitle = False\<rparr>"

definition unknownHeading :: DomHeader where
  "unknownHeading =
     \<lparr>tagLevel = 3, innerText = ''Changelog'', dataHeading = Some ''Changelog'', headerTop = 120,
      inEmbed = False, inlineTitle = False\<rparr>"

text \<open>Reading views in which \<open>Notes\<close> is the candidate heading.\<close>

definition notesView :: View where
  "notesView =
     \<lparr>hasFile = True, fileHeadings = Some notesDocument, mode = Preview,
      scroller = Some tallScroller, editor = None,
      domHeaders = [passedHeading, notesHeading]\<rparr>"

definition tieView :: View where
  "tieView =
     \<lparr>hasFile = True, fileHeadings = Some tieDocument, mode = Preview,
      scroller = Some tallScroller, editor = None,
      domHeaders = [passedHeading, notesHeading]\<rparr>"

text \<open>
  The plugin after the first update cycle on the view of \<open>notesDocument\<close> and a click on
  the entry with index 3.
\<close>

definition clickedState :: Plugin where
  "clickedState = fst (onClickEvent (updateToc initialPlugin (Some notesView)) notesView 3)"

text \<open>A reading view whose candidate heading is not in the outline.\<close>

definition unknownView :: View where
  "unknownView =
     \<lparr>hasFile = True, fileHeadings = Some introSetupUsage, mode = Preview,
      scroller = Some tallScroller, editor = None,
      domHeaders = [passedHeading, unknownHeading]\<rparr>"

text \<open>A reading view scrolled down by 10 pixels, and an editing view at the top of the
  document with the cursor in line 12.\<close>

definition topPreviewView :: View where
  "topPreviewView =
     \<lparr>hasFile = True, fileHeadings = Some notesDocument, mode = Preview,
      scroller = Some \<lparr>scrollTop = 10, clientHeight = 900, rectTop = 0, rectLeft = 0\<rparr>,
      editor = None,
      domHeaders = [passedHeading, notesHeading]\<rparr>"

definition topCursorView :: View where
  "topCursorView =
     \<lparr>hasFile = True, fileHeadings = Some introSetupUsage, mode = Source,
      scroller = None,
      editor = Some \<lparr>scrollInfoTop = 0, scrollInfoHeight = None, cm = None,
                       cursorLine = Some 12\<rparr>,
      domHeaders = []\<rparr>"

section \<open>The entries that the parent loop marks\<close>

text \<open>
  A description of the loop \<open>parentLoop\<close>, used to state its result: started with the
  counter \<open>n\<close> and the set \<open>F\<close> of levels found so far, the loop marks the entry \<open>j\<close>
  exactly when \<open>j\<close> is below \<open>n\<close>, its level is smaller than the active level \<open>L\<close>
  and not in \<open>F\<close>, and no entry between \<open>j\<close> and \<open>n\<close> has the same level or is a
  level 1 entry at which the loop marks and stops.
\<close>

definition markedByLoop :: "int \<Rightarrow> int set \<Rightarrow> TocElement list \<Rightarrow> nat \<Rightarrow> nat \<Rightarrow> bool" where
  "markedByLoop L F xs n j \<longleftrightarrow>
     j < n \<and> levelOr1 (xs ! j) < L \<and> levelOr1 (xs ! j) \<notin> F \<and>
     (\<forall>k. j < k \<and> k < n \<longrightarrow>
        levelOr1 (xs ! k) \<noteq> levelOr1 (xs ! j) \<and>
        \<not> (levelOr1 (xs ! k) = 1 \<and> 1 < L \<and> 1 \<notin> F))"

section \<open>Rebuilding the panel and the resolver state\<close>

lemma clickedState_fields:
  "lastActiveIndex clickedState = 3" "blockScrollEvent clickedState"
  "lastHeadings clickedState = notesDocument"
  "\<exists>items. containerEl clickedState = Some items"
  by (simp_all add: clickedState_def onClickEvent_def updateToc_def renderToc_def
      initialPlugin_def notesView_def getTocHeaders_def areHeadersStructurallyEqual_def
      notesDocument_def Let_def)

text \<open>
  Claim C1 says that every call of \<open>renderToc\<close> resets the resolver state, so that
  \<open>lastActiveIndex\<close> is \<open>-1\<close> and the scroll guard is cleared afterwards. The source
  does not assign either field in \<open>renderToc\<close>. After a click on the entry with index 3
  the index is 3 and the scroll guard is set; when the document then changes to one with
  three other headings and the panel is rendered again, directly or by \<open>updateToc\<close>, the
  index is still 3 and the scroll guard is still set.
\<close>

theorem renderToc_reset_counterexample:
  "lastActiveIndex (renderToc clickedState previewView (Some introSetupUsage)) \<noteq> - 1 \<and>
   blockScrollEvent (renderToc clickedState previewView (Some introSetupUsage)) \<and>
   lastActiveIndex (updateToc clickedState (Some previewView)) \<noteq> - 1 \<and>
   blockScrollEvent (updateToc clickedState (Some previewView))"
proof -
  obtain items where c: "containerEl clickedState = Some items"
    using clickedState_fields(4) by blast
  have r: "renderToc clickedState previewView (Some introSetupUsage) =
             clickedState\<lparr>containerEl := Some (map createItem introSetupUsage),
               lastHeadings := introSetupUsage\<rparr>"
    using c by (simp add: renderToc_def)
  have "\<not> areHeadersStructurallyEqual notesDocument introSetupUsage"
    by (simp add: areHeadersStructurallyEqual_def notesDocument_def introSetupUsage_def)
  then have u: "updateToc clickedState (Some previewView) =
             renderToc clickedState previewView (Some introSetupUsage)"
    using c by (simp add: updateToc_def Let_def clickedState_fields(3) getTocHeaders_def
        previewView_def)
  show ?thesis unfolding u r by (simp add: clickedState_fields)
qed

text \<open>
  Claim C1 as amended: \<open>renderToc\<close> leaves the resolver state as it is; after any
  rebuild \<open>lastActiveIndex\<close> and the scroll guard \<open>blockScrollEvent\<close> have the values
  they had before the call.
\<close>

theorem renderToc_keeps_resolver_state:
  "lastActiveIndex (renderToc st view headers) = lastActiveIndex st \<and>
   blockScrollEvent (renderToc st view headers) = blockScrollEvent st"
  by (simp add: renderToc_def Let_def split: option.splits)

section \<open>Structural equality of two heading lists\<close>

lemma headersLoop_iff:
  "length A = length B \<Longrightarrow>
   headersLoop A B \<longleftrightarrow>
     (\<forall>i<length A. level (A ! i) = level (B ! i) \<and> htext (A ! i) = htext (B ! i))"
proof (induction A B rule: list_induct2)
  case Nil
  then show ?case by simp
next
  case (Cons x xs y ys)
  then show ?case by (auto simp: less_Suc_eq_0_disj)
qed

text \<open>
  Claim C2 says that \<open>areHeadersStructurallyEqual\<close> holds if and only if the lists have
  the same length and agree at every index in level and in the label after markup
  stripping. The source compares the heading texts as they are: the headings \<open>**A**\<close>
  and \<open>A\<close> of level 1 have the same stripped label, and the check returns false.
\<close>

theorem stripped_label_equality_counterexample:
  "\<not> areHeadersStructurallyEqual [boldHeading] [plainHeading] \<and>
   length [boldHeading] = length [plainHeading] \<and>
   level ([boldHeading] ! 0) = level ([plainHeading] ! 0) \<and>
   stripMarkdown (htext ([boldHeading] ! 0)) = stripMarkdown (htext ([plainHeading] ! 0))"
  by (simp add: areHeadersStructurallyEqual_def boldHeading_def plainHeading_def
      stripMarkdown_def linkAt_def boldAt_def italicAt_def codeAt_def imageAt_def
      lineTerminator_def)

text \<open>
  Claim C2 as amended: \<open>areHeadersStructurallyEqual\<close> returns true if and only if the two
  lists have the same length and, at every index, equal levels and equal heading texts
  (the texts as extracted, before markup stripping; line and id are ignored).
\<close>

theorem areHeadersStructurallyEqual_iff:
  "areHeadersStructurallyEqual A B \<longleftrightarrow>
     length A = length B \<and>
     (\<forall>i<length A. level (A ! i) = level (B ! i) \<and> htext (A ! i) = htext (B ! i))"
  by (auto simp: areHeadersStructurallyEqual_def headersLoop_iff)

text \<open>
  The amended claim at two snapshots of the example document that differ in the lines
  only, and at two snapshots of different length.
\<close>

theorem areHeadersStructurallyEqual_iff_witness:
  "length introSetupUsage = length introSetupUsageMoved \<and>
   areHeadersStructurallyEqual introSetupUsage introSetupUsageMoved \<and>
   \<not> areHeadersStructurallyEqual introSetupUsage [boldHeading]"
proof -
  have same: "length introSetupUsage = length introSetupUsageMoved \<and>
        (\<forall>i<length introSetupUsage.
           level (introSetupUsage ! i) = level (introSetupUsageMoved ! i) \<and>
           htext (introSetupUsage ! i) = htext (introSetupUsageMoved ! i))"
    by (simp add: introSetupUsage_def introSetupUsageMoved_def less_Suc_eq numeral_3_eq_3)
  then have "areHeadersStructurallyEqual introSetupUsage introSetupUsageMoved"
    using areHeadersStructurallyEqual_iff [of introSetupUsage introSetupUsageMoved] by blast
  moreover have "length introSetupUsage \<noteq> length [boldHeading]"
    by (simp add: introSetupUsage_def)
  then have "\<not> areHeadersStructurallyEqual introSetupUsage [boldHeading]"
    using areHeadersStructurallyEqual_iff [of introSetupUsage "[boldHeading]"] by blast
  ultimately show ?thesis using same by blast
qed

section \<open>Images in heading texts\<close>

text \<open>
  The model of \<open>stripMarkdown\<close> on a heading with a link, emphasis and a code span, on
  an image with empty alternative text, and on a word with underscores.
\<close>

lemma stripMarkdown_examples:
  "stripMarkdown ''**[Intro](#x)** and *code* `y`'' = ''Intro and code y''"
  "stripMarkdown ''![](url)'' = []"
  "stripMarkdown ''snake_case_name'' = ''snakecasename''"
  by (simp_all add: stripMarkdown_def linkAt_def boldAt_def italicAt_def codeAt_def
      imageAt_def targetAt_def runOther_def afterRun_def lineTerminator_def)

text \<open>
  Claim C3 says that \<open>stripMarkdown\<close> handles image syntax before link syntax, so that
  an image \<open>![alt](target)\<close> becomes exactly \<open>alt\<close>. The source applies the link
  expression first and the image expression last: for \<open>![alt](url)\<close> the link expression
  consumes \<open>[alt](url)\<close>, and the exclamation mark stays in the result.
\<close>

theorem stripMarkdown_image_keeps_exclamation_mark:
  "stripMarkdown ''![alt](url)'' = ''!alt''"
  by (simp add: stripMarkdown_def linkAt_def boldAt_def italicAt_def codeAt_def imageAt_def
      targetAt_def runOther_def afterRun_def lineTerminator_def)

section \<open>The target line of the reading view\<close>

text \<open>
  Claim C4 says that in preview mode the target line lies about one third of the viewport
  height below the viewport top. The source computes
  \<open>containerRect.top + clientHeight / 2000 - 20\<close>: for a viewport of height 900 with
  its top at 0 the target is \<open>-19.55\<close>, above the viewport top, while one third of the
  height below the top is 300.
\<close>

theorem previewTargetTop_above_viewport_top:
  "previewTargetTop tallScroller = - 19.55 \<and>
   previewTargetTop tallScroller < rectTop tallScroller \<and>
   rectTop tallScroller + clientHeight tallScroller / 3 = 300"
  by (simp add: previewTargetTop_def tallScroller_def)

text \<open>
  Claim C4 as amended: in preview mode, for every viewport, the target line of the
  resolver is the viewport top plus \<open>clientHeight / 2000\<close> minus 20 pixels. For every
  viewport less than 40000 pixels high it lies above the viewport top, by at most 20
  pixels: a line near the top of the viewport, not one third of the height below it.
\<close>

theorem previewTargetTop_near_viewport_top:
  "previewTargetTop sc = rectTop sc + clientHeight sc / 2000 - 20 \<and>
   (0 \<le> clientHeight sc \<and> clientHeight sc < 40000 \<longrightarrow>
      rectTop sc - 20 \<le> previewTargetTop sc \<and> previewTargetTop sc < rectTop sc)"
  by (simp add: previewTargetTop_def Let_def)

text \<open>The amended claim for the viewport of height 900.\<close>

theorem previewTargetTop_near_viewport_top_witness:
  "0 \<le> clientHeight tallScroller \<and> clientHeight tallScroller < 40000 \<and>
   rectTop tallScroller - 20 \<le> previewTargetTop tallScroller \<and>
   previewTargetTop tallScroller < rectTop tallScroller"
proof -
  have h: "0 \<le> clientHeight tallScroller \<and> clientHeight tallScroller < 40000"
    by (simp add: tallScroller_def)
  with previewTargetTop_near_viewport_top [of tallScroller] show ?thesis by blast
qed

section \<open>The active entry in source mode\<close>

lemma sourceScan_prefix:
  "\<forall>x\<in>set xs. itemLine x \<le> t \<Longrightarrow> ys = [] \<or> t < itemLine (hd ys) \<Longrightarrow>
   sourceScan sp t (xs @ ys) k acc =
     (if xs = [] then acc else if sp then int (k + length xs) - 1 else int (k + length xs))"
proof (induction xs arbitrary: k acc)
  case Nil
  then show ?case by (cases ys) auto
next
  case (Cons x xs)
  then show ?case by auto
qed

lemma sourceScan_last_index:
  assumes srt: "sorted (map itemLine items)"
    and i: "i < length items"
    and le: "itemLine (items ! i) \<le> t"
    and gt: "\<forall>j<length items. i < j \<longrightarrow> t < itemLine (items ! j)"
  shows "sourceScan sp t items 0 (- 1) = (if sp then int i else int i + 1)"
proof -
  let ?xs = "take (Suc i) items" and ?ys = "drop (Suc i) items"
  have pre: "\<forall>x\<in>set ?xs. itemLine x \<le> t"
  proof
    fix x assume "x \<in> set ?xs"
    then obtain j where j: "j < Suc i" "x = items ! j"
      using i by (auto simp: in_set_conv_nth)
    then have "itemLine (items ! j) \<le> itemLine (items ! i)"
      using srt i by (auto simp: sorted_iff_nth_mono dest!: spec [of _ j])
    with le j show "itemLine x \<le> t" by simp
  qed
  have post: "?ys = [] \<or> t < itemLine (hd ?ys)"
  proof (cases "Suc i < length items")
    case True
    then have "hd ?ys = items ! Suc i" by (simp add: hd_drop_conv_nth)
    with gt True show ?thesis by simp
  next
    case False
    then show ?thesis by simp
  qed
  have ne: "?xs \<noteq> []" using i by auto
  have len: "length ?xs = Suc i" using i by simp
  have "sourceScan sp t (?xs @ ?ys) 0 (- 1) =
          (if ?xs = [] then - 1 else if sp then int (0 + length ?xs) - 1 else int (0 + length ?xs))"
    using pre post by (rule sourceScan_prefix)
  then show ?thesis using ne len by simp
qed

lemma highlightSource_result:
  assumes "sourceActiveIndex (specificLine \<noteq> None) (sourceCurrentLine view specificLine) items = r"
    and "0 \<le> r"
    and "\<forall>ed. editor view = Some ed \<longrightarrow> 50 \<le> scrollInfoTop ed"
  shows "highlightSource st view items specificLine =
           st\<lparr>lastActiveIndex := r, containerEl := Some (updateActiveItem items r)\<rparr>"
proof (cases "editor view")
  case None
  then show ?thesis
    using assms(1,2) unfolding highlightSource_def Let_def by simp
next
  case (Some ed)
  with assms(3) have "\<not> scrollInfoTop ed < 50" by (simp add: not_less)
  with Some show ?thesis
    using assms(1,2) unfolding highlightSource_def Let_def by simp
qed

text \<open>
  Claim C5: in source mode, let \<open>i\<close> be the index of the last item whose line is at
  most the target line \<open>t\<close>, the items being in document order (their lines ascend).
  Then the scan with its guard yields \<open>i\<close> when an explicit cursor line was given, and
  \<open>i + 1\<close>, or the last valid index when \<open>i + 1\<close> is not an index, when the line comes
  from the scroll position. Unless the editor is within 50 pixels of the top of the
  document, where the first entry is selected instead, the resolver stores this index
  in \<open>lastActiveIndex\<close> and applies it to the panel.
\<close>

theorem source_mode_active_index:
  assumes "containerEl st = Some items" and "mode view = Source"
    and "sorted (map itemLine items)"
    and "t = sourceCurrentLine view specificLine"
    and "i < length items" and "itemLine (items ! i) \<le> t"
    and "\<forall>j<length items. i < j \<longrightarrow> t < itemLine (items ! j)"
    and "r = (if specificLine \<noteq> None then int i else min (int i + 1) (int (length items) - 1))"
  shows "sourceActiveIndex (specificLine \<noteq> None) t items = r \<and>
         ((\<forall>ed. editor view = Some ed \<longrightarrow> 50 \<le> scrollInfoTop ed) \<longrightarrow>
            lastActiveIndex (highlightActiveHeader st view specificLine) = r \<and>
            containerEl (highlightActiveHeader st view specificLine) =
              Some (updateActiveItem items r))"
proof -
  have scan: "sourceScan sp t items 0 (- 1) = (if sp then int i else int i + 1)" for sp
    using assms(3,5,6,7) by (rule sourceScan_last_index)
  have idx: "sourceActiveIndex (specificLine \<noteq> None) t items = r"
    unfolding sourceActiveIndex_def Let_def scan assms(8) using assms(5) by auto
  have nonneg: "0 \<le> r"
    unfolding assms(8) using assms(5) by auto
  have "lastActiveIndex (highlightActiveHeader st view specificLine) = r \<and>
        containerEl (highlightActiveHeader st view specificLine) =
          Some (updateActiveItem items r)"
    if away: "\<forall>ed. editor view = Some ed \<longrightarrow> 50 \<le> scrollInfoTop ed"
  proof -
    have "highlightSource st view items specificLine =
            st\<lparr>lastActiveIndex := r, containerEl := Some (updateActiveItem items r)\<rparr>"
      using idx nonneg away unfolding assms(4) by (rule highlightSource_result)
    then show ?thesis
      using assms(1,2) by (simp add: highlightActiveHeader_def)
  qed
  with idx show ?thesis by blast
qed

text \<open>
  The claim on the example document: with the cursor in line 12 the entry with index 1
  is active; resolved from the scroll position with line 35 at the top, the index after the
  last entry is replaced by the last index 2.
\<close>

theorem source_mode_active_index_witness:
  "sourceActiveIndex True 12 (map createItem introSetupUsage) = 1 \<and>
   lastActiveIndex (highlightActiveHeader panelState cursorView (Some 12)) = 1 \<and>
   sourceActiveIndex False 35 (map createItem introSetupUsage) = 2 \<and>
   lastActiveIndex (highlightActiveHeader panelState scrolledView None) = 2"
proof -
  let ?items = "map createItem introSetupUsage"
  have items: "containerEl panelState = Some ?items"
    by (simp add: panelState_def)
  have srt: "sorted (map itemLine ?items)"
    by (simp add: introSetupUsage_def createItem_def itemLine_def)
  have "sourceActiveIndex (Some (12::int) \<noteq> None) 12 ?items = 1 \<and>
        ((\<forall>ed. editor cursorView = Some ed \<longrightarrow> 50 \<le> scrollInfoTop ed) \<longrightarrow>
           lastActiveIndex (highlightActiveHeader panelState cursorView (Some 12)) = 1 \<and>
           containerEl (highlightActiveHeader panelState cursorView (Some 12)) =
             Some (updateActiveItem ?items 1))"
    using items _ srt
  proof (rule source_mode_active_index [where i = 1])
    show "mode cursorView = Source" by (simp add: cursorView_def)
    show "12 = sourceCurrentLine cursorView (Some 12)"
      by (simp add: sourceCurrentLine_def cursorView_def)
    show "1 < length ?items" by (simp add: introSetupUsage_def)
    show "itemLine (?items ! 1) \<le> 12"
      by (simp add: introSetupUsage_def createItem_def itemLine_def)
    show "\<forall>j<length ?items. 1 < j \<longrightarrow> 12 < itemLine (?items ! j)"
      by (simp add: introSetupUsage_def createItem_def itemLine_def less_Suc_eq numeral_3_eq_3)
    show "1 = (if Some (12::int) \<noteq> None then int 1
               else min (int 1 + 1) (int (length ?items) - 1))"
      by simp
  qed
  moreover have "\<forall>ed. editor cursorView = Some ed \<longrightarrow> 50 \<le> scrollInfoTop ed"
    by (simp add: cursorView_def)
  ultimately have cursor: "sourceActiveIndex True 12 ?items = 1 \<and>
      lastActiveIndex (highlightActiveHeader panelState cursorView (Some 12)) = 1"
    by simp
  have "sourceActiveIndex ((None::int option) \<noteq> None) 35 ?items = 2 \<and>
        ((\<forall>ed. editor scrolledView = Some ed \<longrightarrow> 50 \<le> scrollInfoTop ed) \<longrightarrow>
           lastActiveIndex (highlightActiveHeader panelState scrolledView None) = 2 \<and>
           containerEl (highlightActiveHeader panelState scrolledView None) =
             Some (updateActiveItem ?items 2))"
    using items _ srt
  proof (rule source_mode_active_index [where i = 2])
    show "mode scrolledView = Source" by (simp add: scrolledView_def)
    show "35 = sourceCurrentLine scrolledView None"
      by (simp add: sourceCurrentLine_def scrolledView_def)
    show "2 < length ?items" by (simp add: introSetupUsage_def)
    show "itemLine (?items ! 2) \<le> 35"
      by (simp add: introSetupUsage_def createItem_def itemLine_def)
    show "\<forall>j<length ?items. 2 < j \<longrightarrow> 35 < itemLine (?items ! j)"
      by (simp add: introSetupUsage_def)
    show "2 = (if (None::int option) \<noteq> None then int 2
               else min (int 2 + 1) (int (length ?items) - 1))"
      by (simp add: introSetupUsage_def)
  qed
  moreover have "\<forall>ed. editor scrolledView = Some ed \<longrightarrow> 50 \<le> scrollInfoTop ed"
    by (simp add: scrolledView_def)
  ultimately have scroll: "sourceActiveIndex False 35 ?items = 2 \<and>
      lastActiveIndex (highlightActiveHeader panelState scrolledView None) = 2"
    by simp
  from cursor scroll show ?thesis by simp
qed

section \<open>The result of marking the active entry\<close>

lemma levelOr1_parentVisible [simp]: "levelOr1 (x\<lparr>parentVisible := b\<rparr>) = levelOr1 x"
  by (simp add: levelOr1_def)

lemma levelOr1_active [simp]: "levelOr1 (x\<lparr>active := b\<rparr>) = levelOr1 x"
  by (simp add: levelOr1_def)

lemma levelOr1_clearItem [simp]: "levelOr1 (clearItem x) = levelOr1 x"
  by (simp add: levelOr1_def clearItem_def)

lemma levelOr1_mark_nth:
  "k < length xs \<Longrightarrow> levelOr1 (xs[n := (xs ! n)\<lparr>parentVisible := True\<rparr>] ! k) = levelOr1 (xs ! k)"
  by (cases "k = n") simp_all

lemma parentLoop_nth:
  "n \<le> length xs \<Longrightarrow> j < length xs \<Longrightarrow>
   parentLoop L F n xs ! j =
     (if markedByLoop L F xs n j then (xs ! j)\<lparr>parentVisible := True\<rparr> else xs ! j)"
proof (induction n arbitrary: F xs)
  case 0
  then show ?case by (simp add: markedByLoop_def)
next
  case (Suc n)
  let ?l = "levelOr1 (xs ! n)"
  let ?xs' = "xs[n := (xs ! n)\<lparr>parentVisible := True\<rparr>]"
  have n: "n < length xs" using Suc.prems by simp
  have lv: "levelOr1 (?xs' ! k) = levelOr1 (xs ! k)" if "k < length xs" for k
    using that by (rule levelOr1_mark_nth)
  show ?case
  proof (cases "?l < L \<and> ?l \<notin> F")
    case mark: True
    show ?thesis
    proof (cases "?l = 1")
      case True
      have "markedByLoop L F xs (Suc n) j \<longleftrightarrow> j = n"
        using mark True n by (auto simp: markedByLoop_def less_Suc_eq)
      then show ?thesis
        using mark True Suc.prems by (auto simp: Let_def)
    next
      case False
      have step: "parentLoop L F (Suc n) xs = parentLoop L (insert ?l F) n ?xs'"
        using mark False by (simp add: Let_def)
      have ih: "parentLoop L (insert ?l F) n ?xs' ! j =
          (if markedByLoop L (insert ?l F) ?xs' n j then (?xs' ! j)\<lparr>parentVisible := True\<rparr>
           else ?xs' ! j)"
        using Suc.prems by (intro Suc.IH) simp_all
      have r': "markedByLoop L (insert ?l F) ?xs' n j \<longleftrightarrow> markedByLoop L F xs (Suc n) j \<and> j \<noteq> n"
        using mark False n Suc.prems(2)
        by (auto simp: markedByLoop_def less_Suc_eq lv)
      have rn: "markedByLoop L F xs (Suc n) n"
        using mark by (simp add: markedByLoop_def)
      show ?thesis
        unfolding step ih r' using rn n by (cases "j = n") simp_all
    qed
  next
    case skip: False
    have step: "parentLoop L F (Suc n) xs = parentLoop L F n xs"
      using skip by (auto simp: Let_def)
    have ih: "parentLoop L F n xs ! j =
        (if markedByLoop L F xs n j then (xs ! j)\<lparr>parentVisible := True\<rparr> else xs ! j)"
      using Suc.prems by (intro Suc.IH) simp_all
    have "markedByLoop L F xs (Suc n) j \<longleftrightarrow> markedByLoop L F xs n j"
      using skip by (auto simp: markedByLoop_def less_Suc_eq)
    then show ?thesis unfolding step ih by simp
  qed
qed

lemma parentLoop_length [simp]: "length (parentLoop L F n xs) = length xs"
  by (induction n arbitrary: F xs) (auto simp: Let_def)

lemma updateActiveItem_length [simp]: "length (updateActiveItem items a) = length items"
  by (simp add: updateActiveItem_def Let_def)

lemma updateActiveItem_nth:
  assumes "a < length items" and "j < length items"
  shows "updateActiveItem items (int a) ! j =
           (items ! j)\<lparr>active := (j = a),
              parentVisible := markedByLoop (levelOr1 (items ! a)) {} items a j\<rparr>"
proof -
  let ?c = "map clearItem items"
  let ?m = "?c[a := (?c ! a)\<lparr>active := True\<rparr>]"
  have lv: "levelOr1 (?m ! k) = levelOr1 (items ! k)" if "k < length items" for k
    using that by (cases "k = a") simp_all
  have upd: "updateActiveItem items (int a) = parentLoop (levelOr1 (items ! a)) {} a ?m"
    using assms(1) lv [of a] by (simp add: updateActiveItem_def Let_def)
  have r: "markedByLoop L {} ?m a j \<longleftrightarrow> markedByLoop L {} items a j" for L
    using assms by (auto simp: markedByLoop_def lv)
  have "parentLoop (levelOr1 (items ! a)) {} a ?m ! j =
          (if markedByLoop (levelOr1 (items ! a)) {} ?m a j then (?m ! j)\<lparr>parentVisible := True\<rparr>
           else ?m ! j)"
    using assms by (intro parentLoop_nth) simp_all
  then show ?thesis
    unfolding upd r using assms
    by (cases "j = a") (auto simp: clearItem_def markedByLoop_def)
qed

text \<open>
  Claim C7: for every outline and every valid active index \<open>a\<close>, \<open>updateActiveItem\<close>
  marks as parent-visible exactly the entries \<open>j\<close> before \<open>a\<close> whose level is smaller
  than the level of the active entry, that are the nearest entry of their level before
  \<open>a\<close> (no entry between \<open>j\<close> and \<open>a\<close> has the same level), and that the walk reaches
  before it stops at a marked entry of level 1 (no entry of level 1 lies between \<open>j\<close>
  and \<open>a\<close> when the active level is above 1). The active entry, and only it, is marked
  active.
\<close>

theorem updateActiveItem_marks_nearest_parents:
  assumes "a < length items" and "j < length items"
  shows "(parentVisible (updateActiveItem items (int a) ! j) \<longleftrightarrow>
            j < a \<and> levelOr1 (items ! j) < levelOr1 (items ! a) \<and>
            (\<forall>k. j < k \<and> k < a \<longrightarrow>
               levelOr1 (items ! k) \<noteq> levelOr1 (items ! j) \<and>
               (levelOr1 (items ! k) = 1 \<longrightarrow> levelOr1 (items ! a) \<le> 1))) \<and>
         (active (updateActiveItem items (int a) ! j) \<longleftrightarrow> j = a)"
  unfolding updateActiveItem_nth [OF assms] by (auto simp: markedByLoop_def)

lemma abcd_levels:
  "length abcdPanel = 4"
  "levelOr1 (abcdPanel ! 0) = 1" "levelOr1 (abcdPanel ! Suc 0) = 2"
  "levelOr1 (abcdPanel ! 2) = 3" "levelOr1 (abcdPanel ! 3) = 2"
  by (simp_all add: abcdPanel_def abcdOutline_def createItem_def levelOr1_def)

text \<open>
  The claim on the outline \<open>[(1, A), (2, B), (3, C), (2, D)]\<close>: with C active, A and B
  are marked and D is not; with D active, only A is marked, B and C are not.
\<close>

theorem updateActiveItem_marks_nearest_parents_witness:
  "parentVisible (updateActiveItem abcdPanel 2 ! 0) \<and>
   parentVisible (updateActiveItem abcdPanel 2 ! 1) \<and>
   \<not> parentVisible (updateActiveItem abcdPanel 2 ! 3) \<and>
   active (updateActiveItem abcdPanel 2 ! 2) \<and>
   parentVisible (updateActiveItem abcdPanel 3 ! 0) \<and>
   \<not> parentVisible (updateActiveItem abcdPanel 3 ! 1) \<and>
   \<not> parentVisible (updateActiveItem abcdPanel 3 ! 2) \<and>
   active (updateActiveItem abcdPanel 3 ! 3)"
proof -
  have k1: "0 < k \<and> k < 2 \<longleftrightarrow> k = Suc 0" for k :: nat by auto
  have k2: "0 < k \<and> k < 3 \<longleftrightarrow> k = Suc 0 \<or> k = 2" for k :: nat by auto
  have k3: "Suc 0 < k \<and> k < 3 \<longleftrightarrow> k = 2" for k :: nat by auto
  have c20: "parentVisible (updateActiveItem abcdPanel 2 ! 0)"
    using updateActiveItem_marks_nearest_parents [of 2 abcdPanel 0]
    by (simp add: abcd_levels k1)
  have c21: "parentVisible (updateActiveItem abcdPanel 2 ! 1)"
    using updateActiveItem_marks_nearest_parents [of 2 abcdPanel 1]
    by (simp add: abcd_levels)
  have c23: "\<not> parentVisible (updateActiveItem abcdPanel 2 ! 3)"
    using updateActiveItem_marks_nearest_parents [of 2 abcdPanel 3]
    by (simp add: abcd_levels)
  have c22: "active (updateActiveItem abcdPanel 2 ! 2)"
    using updateActiveItem_marks_nearest_parents [of 2 abcdPanel 2]
    by (simp add: abcd_levels)
  have c30: "parentVisible (updateActiveItem abcdPanel 3 ! 0)"
    using updateActiveItem_marks_nearest_parents [of 3 abcdPanel 0]
    by (auto simp: abcd_levels k2)
  have c31: "\<not> parentVisible (updateActiveItem abcdPanel 3 ! 1)"
    using updateActiveItem_marks_nearest_parents [of 3 abcdPanel 1]
    by (simp add: abcd_levels)
  have c32: "\<not> parentVisible (updateActiveItem abcdPanel 3 ! 2)"
    using updateActiveItem_marks_nearest_parents [of 3 abcdPanel 2]
    by (simp add: abcd_levels)
  have c33: "active (updateActiveItem abcdPanel 3 ! 3)"
    using updateActiveItem_marks_nearest_parents [of 3 abcdPanel 3]
    by (simp add: abcd_levels)
  from c20 c21 c23 c22 c30 c31 c32 c33 show ?thesis by simp
qed

section \<open>The closest of several matching entries\<close>

lemma closestLoop_Some:
  "sorted_wrt (<) (b # xs) \<Longrightarrow>
   closestLoop la xs (Some \<bar>int b - la\<bar>) b = r \<Longrightarrow>
   r \<in> set (b # xs) \<and>
   (\<forall>x\<in>set (b # xs). \<bar>int r - la\<bar> \<le> \<bar>int x - la\<bar>) \<and>
   (\<forall>x\<in>set (b # xs). \<bar>int x - la\<bar> = \<bar>int r - la\<bar> \<longrightarrow> r \<le> x)"
proof (induction xs arbitrary: b)
  case Nil
  then show ?case by simp
next
  case (Cons idx rest)
  show ?case
  proof (cases "\<bar>int idx - la\<bar> < \<bar>int b - la\<bar>")
    case True
    then have run: "closestLoop la rest (Some \<bar>int idx - la\<bar>) idx = r"
      using Cons.prems(2) by (simp add: Let_def)
    have "sorted_wrt (<) (idx # rest)" using Cons.prems(1) by simp
    from Cons.IH [OF this run]
    have ih: "r \<in> set (idx # rest)"
      "\<forall>x\<in>set (idx # rest). \<bar>int r - la\<bar> \<le> \<bar>int x - la\<bar>"
      "\<forall>x\<in>set (idx # rest). \<bar>int x - la\<bar> = \<bar>int r - la\<bar> \<longrightarrow> r \<le> x"
      by blast+
    from ih(2) have "\<bar>int r - la\<bar> \<le> \<bar>int idx - la\<bar>" by simp
    with True have lt: "\<bar>int r - la\<bar> < \<bar>int b - la\<bar>" by linarith
    show ?thesis using ih lt by auto
  next
    case False
    then have run: "closestLoop la rest (Some \<bar>int b - la\<bar>) b = r"
      using Cons.prems(2) by (simp add: Let_def)
    have srt: "sorted_wrt (<) (b # rest)" using Cons.prems(1) by auto
    from Cons.IH [OF srt run]
    have ih: "r \<in> set (b # rest)"
      "\<forall>x\<in>set (b # rest). \<bar>int r - la\<bar> \<le> \<bar>int x - la\<bar>"
      "\<forall>x\<in>set (b # rest). \<bar>int x - la\<bar> = \<bar>int r - la\<bar> \<longrightarrow> r \<le> x"
      by blast+
    from ih(2) have rb: "\<bar>int r - la\<bar> \<le> \<bar>int b - la\<bar>" by simp
    with False have ridx: "\<bar>int r - la\<bar> \<le> \<bar>int idx - la\<bar>" by linarith
    have bidx: "b < idx" using Cons.prems(1) by simp
    have tie: "r \<le> idx" if "\<bar>int idx - la\<bar> = \<bar>int r - la\<bar>"
    proof -
      from that False rb have "\<bar>int b - la\<bar> = \<bar>int r - la\<bar>" by linarith
      with ih(3) have "r \<le> b" by simp
      with bidx show ?thesis by simp
    qed
    show ?thesis using ih ridx tie by auto
  qed
qed

lemma matchedIndexOf_closest:
  assumes "M \<noteq> []" and "sorted_wrt (<) M"
  shows "\<exists>r\<in>set M. matchedIndexOf la M = int r \<and>
           (\<forall>x\<in>set M. \<bar>int r - la\<bar> \<le> \<bar>int x - la\<bar>) \<and>
           (\<forall>x\<in>set M. \<bar>int x - la\<bar> = \<bar>int r - la\<bar> \<longrightarrow> r \<le> x)"
proof (cases M)
  case Nil
  with assms(1) show ?thesis by simp
next
  case (Cons i0 rest)
  show ?thesis
  proof (cases rest)
    case Nil
    with Cons show ?thesis by (simp add: matchedIndexOf_def)
  next
    case (Cons i1 rest')
    define r where "r = closestLoop la rest (Some \<bar>int i0 - la\<bar>) i0"
    have m: "matchedIndexOf la M = int r"
      using \<open>M = i0 # rest\<close> Cons by (simp add: matchedIndexOf_def r_def Let_def)
    have "sorted_wrt (<) (i0 # rest)" using assms(2) \<open>M = i0 # rest\<close> by simp
    from closestLoop_Some [OF this r_def [symmetric]] m \<open>M = i0 # rest\<close>
    show ?thesis by blast
  qed
qed

lemma set_matchingIndices:
  "set (matchingIndices items lvl txt) = {i. i < length items \<and> itemMatches (items ! i) lvl txt}"
  by (auto simp: matchingIndices_def)

lemma sorted_matchingIndices: "sorted_wrt (<) (matchingIndices items lvl txt)"
  unfolding matchingIndices_def by (rule sorted_wrt_filter) (rule sorted_wrt_upt)

lemma highlightPreview_candidate:
  assumes "scroller view = Some sc" and "50 \<le> scrollTop sc"
    and "findActiveDomHeader (previewTargetTop sc) (visibleDomHeaders view) None = Some cand"
    and "headerTextOf cand \<noteq> []"
    and "matchedIndexOf (lastActiveIndex st)
           (matchingIndices items (tagLevel cand) (headerTextOf cand)) = r"
  shows "highlightPreview st view items =
           (if 0 \<le> r
            then st\<lparr>lastActiveIndex := r, containerEl := Some (updateActiveItem items r)\<rparr>
            else st)"
proof -
  have "\<not> scrollTop sc < 50" using assms(2) by simp
  then show ?thesis
    using assms(1,3,4,5) by (simp add: highlightPreview_def Let_def)
qed

lemma preview_selects_closest:
  assumes "containerEl st = Some items" and "mode view = Preview"
    and "scroller view = Some sc" and "50 \<le> scrollTop sc"
    and "findActiveDomHeader (previewTargetTop sc) (visibleDomHeaders view) None = Some cand"
    and "headerTextOf cand \<noteq> []"
    and "k < length items" and "itemMatches (items ! k) (tagLevel cand) (headerTextOf cand)"
  shows "\<exists>m<length items.
           itemMatches (items ! m) (tagLevel cand) (headerTextOf cand) \<and>
           highlightActiveHeader st view specificLine =
             st\<lparr>lastActiveIndex := int m,
                containerEl := Some (updateActiveItem items (int m))\<rparr> \<and>
           (\<forall>x<length items. itemMatches (items ! x) (tagLevel cand) (headerTextOf cand) \<longrightarrow>
              \<bar>int m - lastActiveIndex st\<bar> \<le> \<bar>int x - lastActiveIndex st\<bar> \<and>
              (\<bar>int x - lastActiveIndex st\<bar> = \<bar>int m - lastActiveIndex st\<bar> \<longrightarrow> m \<le> x))"
proof -
  let ?M = "matchingIndices items (tagLevel cand) (headerTextOf cand)"
  have "k \<in> set ?M" using assms(7,8) by (simp add: set_matchingIndices)
  then have ne: "?M \<noteq> []" by auto
  from matchedIndexOf_closest [OF ne sorted_matchingIndices, of "lastActiveIndex st"]
  obtain m where m: "m \<in> set ?M" "matchedIndexOf (lastActiveIndex st) ?M = int m"
    "\<forall>x\<in>set ?M. \<bar>int m - lastActiveIndex st\<bar> \<le> \<bar>int x - lastActiveIndex st\<bar>"
    "\<forall>x\<in>set ?M. \<bar>int x - lastActiveIndex st\<bar> = \<bar>int m - lastActiveIndex st\<bar> \<longrightarrow> m \<le> x"
    by blast
  have "highlightPreview st view items =
          st\<lparr>lastActiveIndex := int m, containerEl := Some (updateActiveItem items (int m))\<rparr>"
    using highlightPreview_candidate [OF assms(3,4,5,6) m(2)] by simp
  then have "highlightActiveHeader st view specificLine =
          st\<lparr>lastActiveIndex := int m, containerEl := Some (updateActiveItem items (int m))\<rparr>"
    using assms(1,2) by (simp add: highlightActiveHeader_def)
  with m(1,3,4) show ?thesis
    by (auto simp: set_matchingIndices)
qed

lemma notes_candidate:
  "findActiveDomHeader (previewTargetTop tallScroller) (visibleDomHeaders notesView) None
     = Some notesHeading"
  by (simp add: previewTargetTop_def tallScroller_def visibleDomHeaders_def notesView_def
      passedHeading_def notesHeading_def)

lemma stripMarkdown_Notes: "stripMarkdown ''Notes'' = ''Notes''"
  by (simp add: stripMarkdown_def linkAt_def boldAt_def italicAt_def codeAt_def imageAt_def)

text \<open>
  Claim C6: in preview mode, away from the top of the document, when entries of the
  outline match the level and the text of the candidate heading, the resolver selects a
  matching entry whose index has the least distance to \<open>lastActiveIndex\<close> among all
  matching entries, stores it and marks it in the panel.
\<close>

theorem preview_duplicates_closest:
  assumes "containerEl st = Some items" and "mode view = Preview"
    and "scroller view = Some sc" and "50 \<le> scrollTop sc"
    and "findActiveDomHeader (previewTargetTop sc) (visibleDomHeaders view) None = Some cand"
    and "headerTextOf cand \<noteq> []"
    and "k < length items" and "itemMatches (items ! k) (tagLevel cand) (headerTextOf cand)"
  shows "\<exists>m<length items.
           itemMatches (items ! m) (tagLevel cand) (headerTextOf cand) \<and>
           lastActiveIndex (highlightActiveHeader st view specificLine) = int m \<and>
           containerEl (highlightActiveHeader st view specificLine) =
             Some (updateActiveItem items (int m)) \<and>
           (\<forall>x<length items. itemMatches (items ! x) (tagLevel cand) (headerTextOf cand) \<longrightarrow>
              \<bar>int m - lastActiveIndex st\<bar> \<le> \<bar>int x - lastActiveIndex st\<bar>)"
proof -
  from preview_selects_closest [OF assms, of specificLine]
  obtain m where "m < length items"
    "itemMatches (items ! m) (tagLevel cand) (headerTextOf cand)"
    "highlightActiveHeader st view specificLine =
       st\<lparr>lastActiveIndex := int m, containerEl := Some (updateActiveItem items (int m))\<rparr>"
    "\<forall>x<length items. itemMatches (items ! x) (tagLevel cand) (headerTextOf cand) \<longrightarrow>
       \<bar>int m - lastActiveIndex st\<bar> \<le> \<bar>int x - lastActiveIndex st\<bar>"
    by blast
  then show ?thesis by (intro exI [of _ m]) simp
qed

text \<open>
  The claim on the document with \<open>Notes\<close> at the indices 2 and 7 and the last active
  index 3: index 2 is selected.
\<close>

theorem preview_duplicates_closest_witness:
  "lastActiveIndex notesState = 3 \<and>
   itemMatches (map createItem notesDocument ! 2) 3 ''Notes'' \<and>
   itemMatches (map createItem notesDocument ! 7) 3 ''Notes'' \<and>
   lastActiveIndex (highlightActiveHeader notesState notesView None) = 2"
proof -
  let ?items = "map createItem notesDocument"
  have m2: "itemMatches (?items ! 2) 3 ''Notes''"
    by (simp add: notesDocument_def createItem_def itemMatches_def levelOr0_def itemText_def
        stripMarkdown_Notes)
  have m7: "itemMatches (?items ! 7) 3 ''Notes''"
    by (simp add: notesDocument_def createItem_def itemMatches_def levelOr0_def itemText_def
        stripMarkdown_Notes)
  have n3: "\<not> itemMatches (?items ! 3) 3 ''Notes''"
    by (simp add: notesDocument_def createItem_def itemMatches_def levelOr0_def)
  have n4: "\<not> itemMatches (?items ! 4) 3 ''Notes''"
    by (simp add: notesDocument_def createItem_def itemMatches_def levelOr0_def itemText_def
        stripMarkdown_def linkAt_def boldAt_def italicAt_def codeAt_def imageAt_def)
  have la: "lastActiveIndex notesState = 3" by (simp add: notesState_def)
  have cand: "tagLevel notesHeading = 3" "headerTextOf notesHeading = ''Notes''"
    by (simp_all add: notesHeading_def headerTextOf_def)
  have "\<exists>m<length ?items.
           itemMatches (?items ! m) (tagLevel notesHeading) (headerTextOf notesHeading) \<and>
           lastActiveIndex (highlightActiveHeader notesState notesView None) = int m \<and>
           containerEl (highlightActiveHeader notesState notesView None) =
             Some (updateActiveItem ?items (int m)) \<and>
           (\<forall>x<length ?items.
              itemMatches (?items ! x) (tagLevel notesHeading) (headerTextOf notesHeading) \<longrightarrow>
              \<bar>int m - lastActiveIndex notesState\<bar> \<le> \<bar>int x - lastActiveIndex notesState\<bar>)"
  proof (rule preview_duplicates_closest [where sc = tallScroller and k = 2])
    show "containerEl notesState = Some ?items" by (simp add: notesState_def)
    show "mode notesView = Preview" by (simp add: notesView_def)
    show "scroller notesView = Some tallScroller" by (simp add: notesView_def)
    show "50 \<le> scrollTop tallScroller" by (simp add: tallScroller_def)
    show "findActiveDomHeader (previewTargetTop tallScroller) (visibleDomHeaders notesView) None
            = Some notesHeading" by (rule notes_candidate)
    show "headerTextOf notesHeading \<noteq> []" by (simp add: cand)
    show "2 < length ?items" by (simp add: notesDocument_def)
    show "itemMatches (?items ! 2) (tagLevel notesHeading) (headerTextOf notesHeading)"
      using m2 by (simp add: cand)
  qed
  then obtain m where m: "itemMatches (?items ! m) 3 ''Notes''"
      "lastActiveIndex (highlightActiveHeader notesState notesView None) = int m"
      "\<forall>x<length ?items. itemMatches (?items ! x) 3 ''Notes'' \<longrightarrow>
          \<bar>int m - 3\<bar> \<le> \<bar>int x - 3\<bar>"
    unfolding cand la by blast
  have "2 < length ?items" by (simp add: notesDocument_def)
  with m(3) m2 have "\<bar>int m - 3\<bar> \<le> \<bar>int (2::nat) - 3\<bar>" by blast
  then have "m = 2 \<or> m = 3 \<or> m = 4" by auto
  with m(1) n3 n4 have "m = 2" by auto
  with m(2) la m2 m7 show ?thesis by simp
qed

text \<open>
  Claim C10: the choice among equally close matches is fixed. The selected entry is a
  closest match, and among the matching entries at the same distance from
  \<open>lastActiveIndex\<close> it is the one with the smallest index.
\<close>

theorem preview_duplicates_tie_smallest_index:
  assumes "containerEl st = Some items" and "mode view = Preview"
    and "scroller view = Some sc" and "50 \<le> scrollTop sc"
    and "findActiveDomHeader (previewTargetTop sc) (visibleDomHeaders view) None = Some cand"
    and "headerTextOf cand \<noteq> []"
    and "k < length items" and "itemMatches (items ! k) (tagLevel cand) (headerTextOf cand)"
  shows "\<exists>m<length items.
           itemMatches (items ! m) (tagLevel cand) (headerTextOf cand) \<and>
           lastActiveIndex (highlightActiveHeader st view specificLine) = int m \<and>
           (\<forall>x<length items. itemMatches (items ! x) (tagLevel cand) (headerTextOf cand) \<longrightarrow>
              \<bar>int m - lastActiveIndex st\<bar> \<le> \<bar>int x - lastActiveIndex st\<bar> \<and>
              (\<bar>int x - lastActiveIndex st\<bar> = \<bar>int m - lastActiveIndex st\<bar> \<longrightarrow> m \<le> x))"
proof -
  from preview_selects_closest [OF assms, of specificLine]
  obtain m where "m < length items"
    "itemMatches (items ! m) (tagLevel cand) (headerTextOf cand)"
    "highlightActiveHeader st view specificLine =
       st\<lparr>lastActiveIndex := int m, containerEl := Some (updateActiveItem items (int m))\<rparr>"
    "\<forall>x<length items. itemMatches (items ! x) (tagLevel cand) (headerTextOf cand) \<longrightarrow>
       \<bar>int m - lastActiveIndex st\<bar> \<le> \<bar>int x - lastActiveIndex st\<bar> \<and>
       (\<bar>int x - lastActiveIndex st\<bar> = \<bar>int m - lastActiveIndex st\<bar> \<longrightarrow> m \<le> x)"
    by blast
  then show ?thesis by (intro exI [of _ m]) simp
qed

text \<open>
  The claim on the document with \<open>Notes\<close> at the indices 2 and 4 and the last active
  index 3: both are at distance 1, and index 2 is selected.
\<close>

theorem preview_duplicates_tie_smallest_index_witness:
  "lastActiveIndex tieState = 3 \<and>
   itemMatches (map createItem tieDocument ! 2) 3 ''Notes'' \<and>
   itemMatches (map createItem tieDocument ! 4) 3 ''Notes'' \<and>
   lastActiveIndex (highlightActiveHeader tieState tieView None) = 2"
proof -
  let ?items = "map createItem tieDocument"
  have m2: "itemMatches (?items ! 2) 3 ''Notes''"
    by (simp add: tieDocument_def createItem_def itemMatches_def levelOr0_def itemText_def
        stripMarkdown_Notes)
  have m4: "itemMatches (?items ! 4) 3 ''Notes''"
    by (simp add: tieDocument_def createItem_def itemMatches_def levelOr0_def itemText_def
        stripMarkdown_Notes)
  have others: "\<not> itemMatches (?items ! 0) 3 ''Notes''" "\<not> itemMatches (?items ! 1) 3 ''Notes''"
    "\<not> itemMatches (?items ! 3) 3 ''Notes''"
    by (simp_all add: tieDocument_def createItem_def itemMatches_def levelOr0_def)
  have la: "lastActiveIndex tieState = 3" by (simp add: tieState_def)
  have len: "length ?items = 5" by (simp add: tieDocument_def)
  have cand: "tagLevel notesHeading = 3" "headerTextOf notesHeading = ''Notes''"
    by (simp_all add: notesHeading_def headerTextOf_def)
  have "\<exists>m<length ?items.
           itemMatches (?items ! m) (tagLevel notesHeading) (headerTextOf notesHeading) \<and>
           lastActiveIndex (highlightActiveHeader tieState tieView None) = int m \<and>
           (\<forall>x<length ?items.
              itemMatches (?items ! x) (tagLevel notesHeading) (headerTextOf notesHeading) \<longrightarrow>
              \<bar>int m - lastActiveIndex tieState\<bar> \<le> \<bar>int x - lastActiveIndex tieState\<bar> \<and>
              (\<bar>int x - lastActiveIndex tieState\<bar> = \<bar>int m - lastActiveIndex tieState\<bar>
               \<longrightarrow> m \<le> x))"
  proof (rule preview_duplicates_tie_smallest_index [where sc = tallScroller and k = 2])
    show "containerEl tieState = Some ?items" by (simp add: tieState_def)
    show "mode tieView = Preview" by (simp add: tieView_def)
    show "scroller tieView = Some tallScroller" by (simp add: tieView_def)
    show "50 \<le> scrollTop tallScroller" by (simp add: tallScroller_def)
    show "findActiveDomHeader (previewTargetTop tallScroller) (visibleDomHeaders tieView) None
            = Some notesHeading"
      by (simp add: previewTargetTop_def tallScroller_def visibleDomHeaders_def tieView_def
          passedHeading_def notesHeading_def)
    show "headerTextOf notesHeading \<noteq> []" by (simp add: cand)
    show "2 < length ?items" using len by simp
    show "itemMatches (?items ! 2) (tagLevel notesHeading) (headerTextOf notesHeading)"
      using m2 by (simp add: cand)
  qed
  then obtain m where m: "m < 5" "itemMatches (?items ! m) 3 ''Notes''"
      "lastActiveIndex (highlightActiveHeader tieState tieView None) = int m"
      "\<forall>x<5. itemMatches (?items ! x) 3 ''Notes'' \<longrightarrow>
          \<bar>int m - 3\<bar> \<le> \<bar>int x - 3\<bar> \<and> (\<bar>int x - 3\<bar> = \<bar>int m - 3\<bar> \<longrightarrow> m \<le> x)"
    unfolding cand la len by blast
  from m(1) have "m = 0 \<or> m = 1 \<or> m = 2 \<or> m = 3 \<or> m = 4" by auto
  with m(2) others have "m = 2 \<or> m = 4" by auto
  moreover have "m \<noteq> 4"
  proof
    assume "m = 4"
    with m(4) [rule_format, of 2] m2 show False by simp
  qed
  ultimately have "m = 2" by simp
  with m(3) la m2 m4 show ?thesis by simp
qed

section \<open>The top of the document\<close>

lemma updateActiveItem_first_active:
  "items \<noteq> [] \<Longrightarrow> active (updateActiveItem items 0 ! 0)"
  using updateActiveItem_nth [of 0 items 0] by simp

text \<open>
  Claim C8: in both modes, when the scroll offset of the view is below 50 pixels and the
  outline is not empty, the resolver selects index 0, whatever the heading elements, the
  target line and the cursor line are: \<open>lastActiveIndex\<close> becomes 0 and the first entry
  is marked active. The scroll offset is \<open>scrollTop\<close> of the scroll element in preview
  mode and \<open>getScrollInfo().top\<close> of the editor in source mode.
\<close>

theorem top_of_document_selects_first:
  assumes "containerEl st = Some items" and "items \<noteq> []"
    and "(mode view = Preview \<and> (\<exists>sc. scroller view = Some sc \<and> scrollTop sc < 50)) \<or>
         (mode view = Source \<and> (\<exists>ed. editor view = Some ed \<and> scrollInfoTop ed < 50))"
  shows "highlightActiveHeader st view specificLine =
           st\<lparr>lastActiveIndex := 0, containerEl := Some (updateActiveItem items 0)\<rparr> \<and>
         active (updateActiveItem items 0 ! 0)"
proof -
  have "highlightActiveHeader st view specificLine =
           st\<lparr>lastActiveIndex := 0, containerEl := Some (updateActiveItem items 0)\<rparr>"
    using assms(3)
  proof
    assume "mode view = Preview \<and> (\<exists>sc. scroller view = Some sc \<and> scrollTop sc < 50)"
    then show ?thesis
      using assms(1,2) by (auto simp: highlightActiveHeader_def highlightPreview_def)
  next
    assume "mode view = Source \<and> (\<exists>ed. editor view = Some ed \<and> scrollInfoTop ed < 50)"
    then show ?thesis
      using assms(1) by (auto simp: highlightActiveHeader_def highlightSource_def Let_def)
  qed
  then show ?thesis using assms(2) by (simp add: updateActiveItem_first_active)
qed

text \<open>
  The claim in a reading view scrolled down by 10 pixels, and in an editing view at the
  top of the document with the cursor in line 12, below the second heading.
\<close>

theorem top_of_document_selects_first_witness:
  "lastActiveIndex (highlightActiveHeader notesState topPreviewView None) = 0 \<and>
   lastActiveIndex (highlightActiveHeader panelState topCursorView (Some 12)) = 0"
proof -
  have "highlightActiveHeader notesState topPreviewView None =
          notesState\<lparr>lastActiveIndex := 0,
            containerEl := Some (updateActiveItem (map createItem notesDocument) 0)\<rparr> \<and>
        active (updateActiveItem (map createItem notesDocument) 0 ! 0)"
    by (rule top_of_document_selects_first)
       (simp_all add: notesState_def notesDocument_def topPreviewView_def)
  moreover
  have "highlightActiveHeader panelState topCursorView (Some 12) =
          panelState\<lparr>lastActiveIndex := 0,
            containerEl := Some (updateActiveItem (map createItem introSetupUsage) 0)\<rparr> \<and>
        active (updateActiveItem (map createItem introSetupUsage) 0 ! 0)"
    by (rule top_of_document_selects_first)
       (simp_all add: panelState_def introSetupUsage_def topCursorView_def)
  ultimately show ?thesis by simp
qed

section \<open>A candidate heading that matches no entry\<close>

lemma matchingIndices_empty:
  "\<forall>i<length items. \<not> itemMatches (items ! i) lvl txt \<Longrightarrow> matchingIndices items lvl txt = []"
  by (simp add: matchingIndices_def filter_empty_conv)

text \<open>
  Claim C9: in preview mode, away from the top of the document, when no entry of the
  outline matches the level and the text of the candidate heading, the resolver changes
  nothing: \<open>lastActiveIndex\<close> and every entry of the panel stay as they are.
\<close>

theorem preview_no_match_no_update:
  assumes "containerEl st = Some items" and "mode view = Preview"
    and "scroller view = Some sc" and "50 \<le> scrollTop sc"
    and "findActiveDomHeader (previewTargetTop sc) (visibleDomHeaders view) None = Some cand"
    and "\<forall>i<length items. \<not> itemMatches (items ! i) (tagLevel cand) (headerTextOf cand)"
  shows "highlightActiveHeader st view specificLine = st"
proof -
  have "matchingIndices items (tagLevel cand) (headerTextOf cand) = []"
    using assms(6) by (rule matchingIndices_empty)
  then have none: "matchedIndexOf (lastActiveIndex st)
      (matchingIndices items (tagLevel cand) (headerTextOf cand)) = - 1"
    by (simp add: matchedIndexOf_def)
  have "\<not> scrollTop sc < 50" using assms(4) by simp
  then have "highlightPreview st view items = st"
    using assms(3,5) none by (simp add: highlightPreview_def Let_def)
  then show ?thesis using assms(1,2) by (simp add: highlightActiveHeader_def)
qed

text \<open>
  The claim for the candidate heading \<open>Changelog\<close>, which the example document does
  not contain.
\<close>

theorem preview_no_match_no_update_witness:
  "highlightActiveHeader (panelState\<lparr>lastActiveIndex := 1\<rparr>) unknownView None =
     panelState\<lparr>lastActiveIndex := 1\<rparr>"
proof (rule preview_no_match_no_update [where sc = tallScroller and cand = unknownHeading])
  show "containerEl (panelState\<lparr>lastActiveIndex := 1\<rparr>) = Some (map createItem introSetupUsage)"
    by (simp add: panelState_def)
  show "mode unknownView = Preview" by (simp add: unknownView_def)
  show "scroller unknownView = Some tallScroller" by (simp add: unknownView_def)
  show "50 \<le> scrollTop tallScroller" by (simp add: tallScroller_def)
  show "findActiveDomHeader (previewTargetTop tallScroller) (visibleDomHeaders unknownView) None
          = Some unknownHeading"
    by (simp add: previewTargetTop_def tallScroller_def visibleDomHeaders_def unknownView_def
        passedHeading_def unknownHeading_def)
  show "\<forall>i<length (map createItem introSetupUsage).
          \<not> itemMatches (map createItem introSetupUsage ! i) (tagLevel unknownHeading)
              (headerTextOf unknownHeading)"
    by (simp add: introSetupUsage_def createItem_def itemMatches_def levelOr0_def
        unknownHeading_def less_Suc_eq numeral_3_eq_3)
qed

end
